theory Spec2Isabelle
  imports Main "HOL-Library.Multiset"
begin

section \<open>Log records\<close>

text \<open>
  The log table of the renderer (\<^verbatim>\<open>LogTable\<close>) shows the entries of a log file after a
  level filter, a search and a sort. Of a \<^verbatim>\<open>LogEntry\<close> the pipeline reads the level and
  the message only; the index and the timestamp are kept so that entries with equal
  messages stay distinguishable. The fields \<^verbatim>\<open>meta\<close>, \<^verbatim>\<open>repeated\<close>, \<^verbatim>\<open>momentValue\<close> and
  \<^verbatim>\<open>logType\<close> of an entry are read by the cell renderers only and are left out.
\<close>

record LogEntry =
  index :: nat
  timestamp :: string
  level :: string
  message :: string

text \<open>
  A \<^verbatim>\<open>LevelFilter\<close> is an object with one boolean per level name. It is modelled as
  the association list of its own properties, and \<^verbatim>\<open>Object.keys(filter)\<close> is the list of
  first components. The object is a plain one: a name that
  is not among its own keys is looked up in \<^verbatim>\<open>Object.prototype\<close>, whose members are
  functions (and, for \<^verbatim>\<open>__proto__\<close>, the prototype itself), all of them truthy. Any other
  name reads as \<^verbatim>\<open>undefined\<close>. \<open>truthyProperty\<close> is the truth value of \<^verbatim>\<open>filter[k]\<close>.
\<close>

type_synonym LevelFilter = "(string \<times> bool) list"

definition objectPrototype :: "string list" where
  "objectPrototype =
     [''constructor'', ''__defineGetter__'', ''__defineSetter__'', ''hasOwnProperty'',
      ''__lookupGetter__'', ''__lookupSetter__'', ''isPrototypeOf'', ''propertyIsEnumerable'',
      ''toString'', ''valueOf'', ''__proto__'', ''toLocaleString'']"

definition truthyProperty :: "LevelFilter \<Rightarrow> string \<Rightarrow> bool" where
  "truthyProperty flt k =
     (case map_of flt k of
        Some b \<Rightarrow> b
      | None \<Rightarrow> k \<in> set objectPrototype)"

section \<open>The runtime\<close>

text \<open>
  \<^verbatim>\<open>new RegExp(pattern, flags)\<close> either throws a \<^verbatim>\<open>SyntaxError\<close> or yields an object
  whose \<^verbatim>\<open>test\<close> method decides whether a string matches. The code passes the flags
  \<^verbatim>\<open>'i'\<close> and never the flag \<^verbatim>\<open>g\<close>, so \<^verbatim>\<open>test\<close> keeps no position between calls and a
  compiled expression is a predicate on strings. The constructor is a parameter of the
  search functions: what is proved about them holds for every regular-expression engine.
\<close>

datatype error = SyntaxError

type_synonym RegExp = "string \<Rightarrow> bool"

type_synonym RegExpConstructor = "string \<Rightarrow> string \<Rightarrow> RegExp option"

text \<open>\<^verbatim>\<open>s.split(' ')\<close>: the pieces between single spaces, empty pieces included.\<close>

fun split :: "char \<Rightarrow> string \<Rightarrow> string list" where
  "split d [] = [[]]"
| "split d (c # cs) =
     (if c = d then [] # split d cs
      else (c # hd (split d cs)) # tl (split d cs))"

text \<open>\<^verbatim>\<open>s.startsWith(p)\<close> and \<^verbatim>\<open>s.slice(1)\<close>.\<close>

definition startsWith :: "string \<Rightarrow> string \<Rightarrow> bool" where
  "startsWith s p = (take (length p) s = p)"

definition slice1 :: "string \<Rightarrow> string" where
  "slice1 s = drop 1 s"

section \<open>The search engine\<close>

text \<open>
  The two closures of \<^verbatim>\<open>doSearchFilter\<close> read the variable \<^verbatim>\<open>searchRegex\<close> at the time
  they are called. The variable is assigned when the function starts (from the whole
  search text) and again by each excluding parameter; a parameter that does not exclude
  leaves it as it is. The loop below carries the variable's value along.
\<close>

definition doSearch :: "string \<Rightarrow> RegExp \<Rightarrow> LogEntry \<Rightarrow> bool" where
  "doSearch search searchRegex a = (search = [] \<or> searchRegex (message a))"

definition doExclude :: "string \<Rightarrow> RegExp \<Rightarrow> LogEntry \<Rightarrow> bool" where
  "doExclude search searchRegex a = (search = [] \<or> \<not> searchRegex (message a))"

definition excludes :: "string \<Rightarrow> bool" where
  "excludes param = (startsWith param ''!'' \<and> length param > 1)"

fun filterEach ::
  "RegExpConstructor \<Rightarrow> string \<Rightarrow> string list \<Rightarrow> RegExp \<Rightarrow> LogEntry list
    \<Rightarrow> error + LogEntry list" where
  "filterEach rx search [] searchRegex list = Inr list"
| "filterEach rx search (param # searchParams) searchRegex list =
     (if excludes param then
        (case rx (slice1 param) ''i'' of
           None \<Rightarrow> Inl SyntaxError
         | Some searchRegex' \<Rightarrow>
             filterEach rx search searchParams searchRegex'
               (filter (doExclude search searchRegex') list))
      else
        filterEach rx search searchParams searchRegex
          (filter (doSearch search searchRegex) list))"

definition doSearchFilter ::
  "RegExpConstructor \<Rightarrow> string \<Rightarrow> LogEntry list \<Rightarrow> error + LogEntry list" where
  "doSearchFilter rx search list =
     (case rx search ''i'' of
        None \<Rightarrow> Inl SyntaxError
      | Some searchRegex \<Rightarrow> filterEach rx search (split CHR '' '' search) searchRegex list)"

text \<open>
  \<^verbatim>\<open>list.forEach(f)\<close> with \<^verbatim>\<open>f(a, i)\<close> pushing \<^verbatim>\<open>i\<close> onto \<^verbatim>\<open>foundIndices\<close> when the
  entry passes: \<open>pushEach\<close> walks the list from position \<open>i\<close> on.
\<close>

fun pushEach :: "(LogEntry \<Rightarrow> bool) \<Rightarrow> LogEntry list \<Rightarrow> nat \<Rightarrow> nat list \<Rightarrow> nat list" where
  "pushEach p [] i foundIndices = foundIndices"
| "pushEach p (a # list) i foundIndices =
     pushEach p list (Suc i) (if p a then foundIndices @ [i] else foundIndices)"

fun indexEach ::
  "RegExpConstructor \<Rightarrow> string \<Rightarrow> string list \<Rightarrow> RegExp \<Rightarrow> LogEntry list \<Rightarrow> nat list
    \<Rightarrow> error + nat list" where
  "indexEach rx search [] searchRegex list foundIndices = Inr foundIndices"
| "indexEach rx search (param # searchParams) searchRegex list foundIndices =
     (if excludes param then
        (case rx (slice1 param) ''i'' of
           None \<Rightarrow> Inl SyntaxError
         | Some searchRegex' \<Rightarrow>
             indexEach rx search searchParams searchRegex' list
               (pushEach (doExclude search searchRegex') list 0 foundIndices))
      else
        indexEach rx search searchParams searchRegex list
          (pushEach (doSearch search searchRegex) list 0 foundIndices))"

definition doSearchIndex ::
  "RegExpConstructor \<Rightarrow> string \<Rightarrow> LogEntry list \<Rightarrow> error + nat list" where
  "doSearchIndex rx search list =
     (case rx search ''i'' of
        None \<Rightarrow> Inl SyntaxError
      | Some searchRegex \<Rightarrow> indexEach rx search (split CHR '' '' search) searchRegex list [])"

subsection \<open>An engine for literal patterns\<close>

text \<open>
  The examples need one concrete engine. A pattern without any of the syntax characters
  \<^verbatim>\<open>^ $ \ . * + ? ( ) [ ] { } |\<close> is a sequence of pattern characters: without flags it
  matches a string exactly when the pattern occurs in it, and with the flag \<^verbatim>\<open>i\<close> when it
  occurs up to the case of the letters. \<open>literalRegExp\<close> compiles these patterns and
  rejects every other pattern and all other flags. For the unterminated group \<^verbatim>\<open>(\<close> that
  is what the constructor does; patterns that use the syntax characters otherwise, and
  other flags, are outside this engine, and no example below uses one.
\<close>

definition syntaxCharacters :: "char list" where
  "syntaxCharacters = CHR 0x5C # ''^$.*+?()[]{}|''"

definition canonicalize :: "char \<Rightarrow> char" where
  "canonicalize c =
     (case map_of (zip ''abcdefghijklmnopqrstuvwxyz'' ''ABCDEFGHIJKLMNOPQRSTUVWXYZ'') c of
        Some u \<Rightarrow> u
      | None \<Rightarrow> c)"

fun matchesAt :: "(char \<Rightarrow> char) \<Rightarrow> string \<Rightarrow> string \<Rightarrow> bool" where
  "matchesAt canon [] s = True"
| "matchesAt canon (p # ps) [] = False"
| "matchesAt canon (p # ps) (c # cs) = (canon p = canon c \<and> matchesAt canon ps cs)"

fun occursIn :: "(char \<Rightarrow> char) \<Rightarrow> string \<Rightarrow> string \<Rightarrow> bool" where
  "occursIn canon p [] = matchesAt canon p []"
| "occursIn canon p (c # cs) = (matchesAt canon p (c # cs) \<or> occursIn canon p cs)"

definition literalRegExp :: RegExpConstructor where
  "literalRegExp pattern flags =
     (if list_ex (\<lambda>c. c \<in> set syntaxCharacters) pattern then None
      else if flags = ''i'' then Some (occursIn canonicalize pattern)
      else if flags = [] then Some (occursIn (\<lambda>c. c) pattern)
      else None)"

section \<open>The log table\<close>

text \<open>
  The properties of the component (\<^verbatim>\<open>LogTableProps\<close>; the shared application state is
  not read by the pipeline and left out), its state (\<^verbatim>\<open>LogTableState\<close>) and the options
  of \<^verbatim>\<open>sortFilterList\<close>, in which every field may be absent. The code tests the log file
  for absence in several places, so it is optional here as well.
\<close>

record LogFile =
  logEntries :: "LogEntry list"
  logType :: string

record LogTableProps =
  logFile :: "LogFile option"
  levelFilter :: LevelFilter
  search :: "string option"
  dateTimeFormat :: string
  showOnlySearchResults :: bool
  searchIndex :: nat

record LogTableState =
  sortedList :: "LogEntry list"
  searchList :: "nat list"
  selectedIndex :: "nat option"
  sortBy :: "string option"
  sortDirection :: "string option"
  ignoreSearchIndex :: bool

record SortFilterListOptions =
  optSortBy :: "string option"
  optSortDirection :: "string option"
  optFilter :: "LevelFilter option"
  optSearch :: "string option"
  optLogFile :: "LogFile option"
  optShowOnlySearchResults :: "bool option"

definition ASC :: string where
  "ASC = ''ASC''"

definition DESC :: string where
  "DESC = ''DESC''"

text \<open>A string that may be \<^verbatim>\<open>undefined\<close> is truthy when it is present and not empty.\<close>

definition truthy :: "string option \<Rightarrow> bool" where
  "truthy s = (s \<noteq> None \<and> s \<noteq> Some [])"

text \<open>The state the constructor sets up.\<close>

definition initialState :: LogTableState where
  "initialState =
     \<lparr>sortedList = [], searchList = [], selectedIndex = None, sortBy = Some ''index'',
      sortDirection = Some ASC, ignoreSearchIndex = False\<rparr>"

subsection \<open>The level filter\<close>

definition shouldFilter :: "LogTableProps \<Rightarrow> LevelFilter option \<Rightarrow> bool" where
  "shouldFilter props given =
     (let flt = (case given of Some f \<Rightarrow> f | None \<Rightarrow> levelFilter props);
          allEnabled = list_all (\<lambda>k. truthyProperty flt k) (map fst flt);
          allDisabled = list_all (\<lambda>k. \<not> truthyProperty flt k) (map fst flt)
      in \<not> (allEnabled \<or> allDisabled))"

definition doFilter :: "LevelFilter \<Rightarrow> LogEntry \<Rightarrow> bool" where
  "doFilter flt a = (level a \<noteq> [] \<and> truthyProperty flt (level a))"

subsection \<open>Sorting\<close>

text \<open>
  \<^verbatim>\<open>String.prototype.localeCompare\<close> depends on the locale of the machine and is a
  parameter. \<^verbatim>\<open>Array.prototype.sort\<close> is modelled as a stable insertion sort that reads
  the sign of the comparison only. How the engine orders entries that compare equal is
  its own choice; nothing below depends on it.
\<close>

type_synonym LocaleCompare = "string \<Rightarrow> string \<Rightarrow> int"

definition doSortByMessage :: "LocaleCompare \<Rightarrow> LogEntry \<Rightarrow> LogEntry \<Rightarrow> int" where
  "doSortByMessage lc a b = lc (message a) (message b)"

definition doSortByLevel :: "LocaleCompare \<Rightarrow> LogEntry \<Rightarrow> LogEntry \<Rightarrow> int" where
  "doSortByLevel lc a b = lc (level a) (level b)"

fun insertBy :: "('a \<Rightarrow> 'a \<Rightarrow> int) \<Rightarrow> 'a \<Rightarrow> 'a list \<Rightarrow> 'a list" where
  "insertBy cmp x [] = [x]"
| "insertBy cmp x (y # ys) = (if cmp x y \<le> 0 then x # y # ys else y # insertBy cmp x ys)"

definition sortBy_cmp :: "('a \<Rightarrow> 'a \<Rightarrow> int) \<Rightarrow> 'a list \<Rightarrow> 'a list" where
  "sortBy_cmp cmp xs = foldr (insertBy cmp) xs []"

text \<open>A comparison by code units, the collation used in the examples.\<close>

fun codeUnitCompare :: LocaleCompare where
  "codeUnitCompare [] [] = 0"
| "codeUnitCompare [] (y # ys) = - 1"
| "codeUnitCompare (x # xs) [] = 1"
| "codeUnitCompare (x # xs) (y # ys) =
     (if (of_char x :: nat) < of_char y then - 1
      else if (of_char y :: nat) < of_char x then 1
      else codeUnitCompare xs ys)"

subsection \<open>The pipeline\<close>

text \<open>
  \<^verbatim>\<open>sortFilterList\<close> returns either the array of the log file itself or an array of its
  own (\<^verbatim>\<open>concat()\<close> copies, and the filter, the search, the sort and the reversal work
  on the copy). The result records which of the two it is.
\<close>

datatype Returned = SourceArray "LogEntry list" | NewArray "LogEntry list"

fun entries :: "Returned \<Rightarrow> LogEntry list" where
  "entries (SourceArray xs) = xs"
| "entries (NewArray xs) = xs"

definition noSort :: "string option \<Rightarrow> string option \<Rightarrow> bool" where
  "noSort sortBy' sortDirection' =
     ((\<not> truthy sortBy' \<or> sortBy' = Some ''index'') \<and>
      (\<not> truthy sortDirection' \<or> sortDirection' = Some ASC))"

definition filterStep :: "bool \<Rightarrow> LevelFilter \<Rightarrow> LogEntry list \<Rightarrow> LogEntry list" where
  "filterStep shouldFilter' flt list =
     (if shouldFilter' then filter (doFilter flt) list else list)"

definition searchStep ::
  "RegExpConstructor \<Rightarrow> string option \<Rightarrow> bool \<Rightarrow> LogEntry list \<Rightarrow> error + LogEntry list" where
  "searchStep rx search' showOnly list =
     (case search' of
        None \<Rightarrow> Inr list
      | Some s \<Rightarrow> if s \<noteq> [] \<and> showOnly then doSearchFilter rx s list else Inr list)"

definition sortStep :: "LocaleCompare \<Rightarrow> string option \<Rightarrow> LogEntry list \<Rightarrow> LogEntry list" where
  "sortStep lc sortBy' list =
     (if sortBy' = Some ''index'' \<or> sortBy' = Some ''timestamp'' then list
      else if sortBy' = Some ''message'' then sortBy_cmp (doSortByMessage lc) list
      else if sortBy' = Some ''level'' then sortBy_cmp (doSortByLevel lc) list
      else list)"

definition reverseStep :: "string option \<Rightarrow> LogEntry list \<Rightarrow> LogEntry list" where
  "reverseStep sortDirection' list = (if sortDirection' = Some DESC then rev list else list)"

definition sortFilterList ::
  "RegExpConstructor \<Rightarrow> LocaleCompare \<Rightarrow> LogTableProps \<Rightarrow> LogTableState
    \<Rightarrow> SortFilterListOptions \<Rightarrow> error + Returned" where
  "sortFilterList rx lc props state options =
     (let logFile' = (case optLogFile options of Some f \<Rightarrow> Some f | None \<Rightarrow> logFile props);
          flt = (case optFilter options of Some f \<Rightarrow> f | None \<Rightarrow> levelFilter props);
          search' = (case optSearch options of Some s \<Rightarrow> Some s | None \<Rightarrow> search props);
          sortBy' = (if truthy (optSortBy options) then optSortBy options else sortBy state);
          showOnly = (case optShowOnlySearchResults options of
                        Some b \<Rightarrow> b | None \<Rightarrow> showOnlySearchResults props);
          sortDirection' = (if truthy (optSortDirection options) then optSortDirection options
                            else sortDirection state)
      in case logFile' of
           None \<Rightarrow> Inr (NewArray [])
         | Some file \<Rightarrow>
             if noSort sortBy' sortDirection' \<and> \<not> shouldFilter props (Some flt) \<and> \<not> truthy search'
             then Inr (SourceArray (logEntries file))
             else
               (case searchStep rx search' showOnly
                       (filterStep (shouldFilter props (Some flt)) flt (logEntries file)) of
                  Inl e \<Rightarrow> Inl e
                | Inr found \<Rightarrow>
                    Inr (NewArray (reverseStep sortDirection' (sortStep lc sortBy' found)))))"

definition noOptions :: SortFilterListOptions where
  "noOptions =
     \<lparr>optSortBy = None, optSortDirection = None, optFilter = None, optSearch = None,
      optLogFile = None, optShowOnlySearchResults = None\<rparr>"

subsection \<open>The life cycle\<close>

text \<open>
  An exception leaves the handler before \<^verbatim>\<open>setState\<close>, so a handler returns either the
  error or the next state. \<^verbatim>\<open>didFilterChange\<close> lives in a module of its own and is a
  parameter of \<^verbatim>\<open>componentWillReceiveProps\<close>. \<open>propsChanged\<close> is the condition under
  which the handler runs the pipeline again.
\<close>

definition searchChanged :: "LogTableProps \<Rightarrow> LogTableProps \<Rightarrow> bool" where
  "searchChanged props nextProps =
     (search props \<noteq> search nextProps \<or>
      showOnlySearchResults props \<noteq> showOnlySearchResults nextProps)"

definition fileChanged :: "LogTableProps \<Rightarrow> LogTableProps \<Rightarrow> bool" where
  "fileChanged props nextProps =
     (case logFile nextProps of
        None \<Rightarrow> False
      | Some nextFile \<Rightarrow>
          (case logFile props of
             None \<Rightarrow> True
           | Some file \<Rightarrow>
               length (logEntries file) \<noteq> length (logEntries nextFile) \<or>
               logType file \<noteq> logType nextFile))"

definition propsChanged ::
  "(LevelFilter \<Rightarrow> LevelFilter \<Rightarrow> bool) \<Rightarrow> LogTableProps \<Rightarrow> LogTableProps \<Rightarrow> bool" where
  "propsChanged didFilterChange props nextProps =
     (didFilterChange (levelFilter props) (levelFilter nextProps)
      \<or> searchChanged props nextProps \<or> fileChanged props nextProps)"

definition makeSearchList ::
  "RegExpConstructor \<Rightarrow> LogTableProps \<Rightarrow> LogEntry list \<Rightarrow> error + nat list" where
  "makeSearchList rx nextProps list =
     (case search nextProps of
        None \<Rightarrow> Inr []
      | Some nextSearch \<Rightarrow>
          if \<not> showOnlySearchResults nextProps \<and> nextSearch \<noteq> []
          then doSearchIndex rx nextSearch list else Inr [])"

definition componentWillReceiveProps ::
  "RegExpConstructor \<Rightarrow> LocaleCompare \<Rightarrow> (LevelFilter \<Rightarrow> LevelFilter \<Rightarrow> bool)
    \<Rightarrow> LogTableProps \<Rightarrow> LogTableState \<Rightarrow> LogTableProps \<Rightarrow> error + LogTableState" where
  "componentWillReceiveProps rx lc didFilterChange props state nextProps =
     (let sortOptions =
            \<lparr>optSortBy = None, optSortDirection = None,
             optFilter = Some (levelFilter nextProps), optSearch = search nextProps,
             optLogFile = logFile nextProps,
             optShowOnlySearchResults = Some (showOnlySearchResults nextProps)\<rparr>;
          cursor = (\<lambda>s. if searchIndex props \<noteq> searchIndex nextProps
                         then s\<lparr>ignoreSearchIndex := False\<rparr> else s)
      in if propsChanged didFilterChange props nextProps
         then
           (case sortFilterList rx lc props state sortOptions of
              Inl e \<Rightarrow> Inl e
            | Inr returned \<Rightarrow>
                (case makeSearchList rx nextProps (entries returned) of
                   Inl e \<Rightarrow> Inl e
                 | Inr found \<Rightarrow>
                     Inr (cursor (state\<lparr>sortedList := entries returned, searchList := found\<rparr>))))
         else Inr (cursor state))"

definition componentDidMount ::
  "RegExpConstructor \<Rightarrow> LocaleCompare \<Rightarrow> LogTableProps \<Rightarrow> LogTableState
    \<Rightarrow> error + LogTableState" where
  "componentDidMount rx lc props state =
     (case sortFilterList rx lc props state noOptions of
        Inl e \<Rightarrow> Inl e
      | Inr returned \<Rightarrow> Inr (state\<lparr>sortedList := entries returned\<rparr>))"

definition onRowClick :: "LogTableState \<Rightarrow> nat \<Rightarrow> LogTableState" where
  "onRowClick state i = state\<lparr>selectedIndex := Some i, ignoreSearchIndex := True\<rparr>"

definition onSortChange ::
  "RegExpConstructor \<Rightarrow> LocaleCompare \<Rightarrow> LogTableProps \<Rightarrow> LogTableState
    \<Rightarrow> string \<Rightarrow> string \<Rightarrow> error + LogTableState" where
  "onSortChange rx lc props state newSortBy newSortDirection =
     (if sortBy state \<noteq> Some newSortBy \<or> sortDirection state \<noteq> Some newSortDirection
      then
        (case sortFilterList rx lc props state
                (noOptions\<lparr>optSortBy := Some newSortBy,
                           optSortDirection := Some newSortDirection\<rparr>) of
           Inl e \<Rightarrow> Inl e
         | Inr returned \<Rightarrow>
             Inr (state\<lparr>sortBy := Some newSortBy, sortDirection := Some newSortDirection,
                        sortedList := entries returned\<rparr>))
      else Inr state)"

text \<open>
  Modelled from the spec: \<^verbatim>\<open>didFilterChange\<close> of the module
  \<^verbatim>\<open>utils/did-filter-change\<close>. The spec has the level filter count as changed when it
  "actually changed value-by-value (not merely object identity)": some level reads
  differently in the two filters.
\<close>

definition didFilterChange :: "LevelFilter \<Rightarrow> LevelFilter \<Rightarrow> bool" where
  "didFilterChange oldFilter newFilter =
     list_ex (\<lambda>k. map_of oldFilter k \<noteq> map_of newFilter k)
       (map fst oldFilter @ map fst newFilter)"

section \<open>Example data\<close>

definition logEntry :: "nat \<Rightarrow> string \<Rightarrow> string \<Rightarrow> LogEntry" where
  "logEntry i l m = \<lparr>index = i, timestamp = [], level = l, message = m\<rparr>"

text \<open>The records of the spec's second scenario.\<close>

definition scenario2 :: "LogEntry list" where
  "scenario2 =
     [logEntry 0 ''info'' ''foo bar'', logEntry 1 ''info'' ''foo'', logEntry 2 ''info'' ''bar'']"

definition abc :: "LogEntry list" where
  "abc = [logEntry 0 ''info'' ''a'', logEntry 1 ''info'' ''b'', logEntry 2 ''info'' ''c'']"

definition xyz :: "LogEntry list" where
  "xyz = [logEntry 0 ''info'' ''x'', logEntry 1 ''info'' ''y'', logEntry 2 ''info'' ''z'']"

text \<open>A log of several levels, not sorted by message.\<close>

definition mixedLog :: "LogEntry list" where
  "mixedLog =
     [logEntry 0 ''info'' ''b x'', logEntry 1 ''debug'' ''d x'', logEntry 2 ''info'' ''q'',
      logEntry 3 ''error'' ''c x'', logEntry 4 ''info'' ''a x'']"

definition infoAndError :: LevelFilter where
  "infoAndError = [(''debug'', False), (''info'', True), (''warn'', False), (''error'', True)]"

definition exampleProps ::
  "LogEntry list \<Rightarrow> LevelFilter \<Rightarrow> string option \<Rightarrow> bool \<Rightarrow> LogTableProps" where
  "exampleProps list flt s b =
     \<lparr>logFile = Some \<lparr>logEntries = list, logType = ''browser''\<rparr>, levelFilter = flt,
      search = s, dateTimeFormat = ''HH:mm'', showOnlySearchResults = b, searchIndex = 0\<rparr>"

definition noLevels :: LevelFilter where
  "noLevels = [(''debug'', False), (''info'', False), (''warn'', False), (''error'', False)]"

text \<open>The state after the component was mounted on a log file with the default view.\<close>

definition mounted :: "LogEntry list \<Rightarrow> LogTableState" where
  "mounted list = initialState\<lparr>sortedList := list\<rparr>"

text \<open>A filter that has lost the keys \<^verbatim>\<open>debug\<close> and \<^verbatim>\<open>warn\<close>.\<close>

definition infoOnly :: LevelFilter where
  "infoOnly = [(''info'', True), (''error'', False)]"

text \<open>Entries whose levels the filter \<open>infoOnly\<close> has no key for, and one it has.\<close>

definition oddLevels :: "LogEntry list" where
  "oddLevels =
     [logEntry 0 ''warn'' ''w'', logEntry 1 ''info'' ''i'', logEntry 2 ''constructor'' ''k'']"

section \<open>Facts about the search engine\<close>

lemmas search_defs =
  doSearchFilter_def doSearchIndex_def literalRegExp_def syntaxCharacters_def excludes_def
  startsWith_def slice1_def doSearch_def doExclude_def canonicalize_def

text \<open>A split has at least one piece, so \<open>hd\<close> and \<open>tl\<close> in \<open>split\<close> read a list that is not empty.\<close>

lemma split_not_empty: "split d s \<noteq> []"
  by (induction s) auto

lemma split_single: "d \<notin> set s \<Longrightarrow> split d s = [s]"
  by (induction s) auto

lemma filterEach_returns:
  "(\<exists>ys. filterEach rx s ps re xs = Inr ys) \<longleftrightarrow>
   (\<forall>p \<in> set ps. excludes p \<longrightarrow> rx (slice1 p) ''i'' \<noteq> None)"
  by (induction ps arbitrary: re xs) (auto split: option.splits)

lemma indexEach_returns:
  "(\<exists>ys. indexEach rx s ps re xs found = Inr ys) \<longleftrightarrow>
   (\<forall>p \<in> set ps. excludes p \<longrightarrow> rx (slice1 p) ''i'' \<noteq> None)"
  by (induction ps arbitrary: re found) (auto split: option.splits)

lemma upt_0_Suc: "[0..<Suc n] = 0 # map Suc [0..<n]"
  by (simp add: upt_conv_Cons map_Suc_upt del: upt_Suc)

text \<open>One pass of \<open>pushEach\<close> appends the passing positions, in increasing order.\<close>

lemma pushEach_eq:
  "pushEach p xs i found =
     found @ map ((+) i) (filter (\<lambda>j. p (xs ! j)) [0..<length xs])"
proof (induction xs arbitrary: i found)
  case Nil
  show ?case by simp
next
  case (Cons a xs)
  have "filter (\<lambda>j. p ((a # xs) ! j)) [0..<length (a # xs)] =
        (if p a then [0] else []) @ map Suc (filter (\<lambda>j. p (xs ! j)) [0..<length xs])"
    by (simp add: upt_0_Suc filter_map comp_def del: upt_Suc)
  then show ?case
    by (simp add: Cons.IH comp_def del: upt_Suc)
qed

lemma pushEach_first:
  "pushEach p xs 0 [] = filter (\<lambda>j. p (xs ! j)) [0..<length xs]"
  by (simp add: pushEach_eq map_idI del: upt_Suc)

subsection \<open>Searches of several terms\<close>

text \<open>
  C1. For the records with the messages "foo bar", "foo" and "bar" and the search text
  "foo !bar" the spec expects the one record "foo". The code returns no record: while the
  parameter "foo" is handled, \<^verbatim>\<open>searchRegex\<close> still holds the expression compiled from the
  whole text "foo !bar", which none of the three messages contains.
\<close>

theorem scenario2_search_is_empty:
  "doSearchFilter literalRegExp ''foo !bar'' scenario2 = Inr []"
  by (simp add: search_defs scenario2_def logEntry_def)

text \<open>
  C2. Searching for "a" and then for "b" in the result keeps the record "ab"; one search
  for "a b" drops it, because both parameters are tested with the expression of the whole
  text "a b". So a chain of two searches is not the search for the joined text.
\<close>

theorem joined_search_differs_from_chain:
  "doSearchFilter literalRegExp ''a'' [logEntry 0 ''info'' ''ab''] = Inr [logEntry 0 ''info'' ''ab'']
 \<and> doSearchFilter literalRegExp ''b'' [logEntry 0 ''info'' ''ab''] = Inr [logEntry 0 ''info'' ''ab'']
 \<and> doSearchFilter literalRegExp ''a b'' [logEntry 0 ''info'' ''ab''] = Inr []"
  by (simp add: search_defs logEntry_def)

text \<open>
  C3. For the search text "!a !b" over the messages "a", "b", "c" the filtering search
  keeps the record at position 2 only. The indexing search walks the whole list once per
  parameter and appends to one list: it returns the positions 1, 2, 0, 2, which are
  neither increasing nor free of duplicates, and positions 0 and 1 are not in the
  filtering search's result.
\<close>

theorem index_search_appends_per_term:
  "doSearchFilter literalRegExp ''!a !b'' abc = Inr [logEntry 2 ''info'' ''c'']
 \<and> doSearchIndex literalRegExp ''!a !b'' abc = Inr [1, 2, 0, 2]"
  by (simp add: search_defs abc_def logEntry_def)

subsection \<open>Patterns that do not compile\<close>

text \<open>
  C4, as the code has it. Nothing in the two search functions catches an exception. They
  return a value exactly when the whole search text compiles and so does the rest of
  every excluding parameter (the parameter without its \<^verbatim>\<open>!\<close>); in every other case the
  \<^verbatim>\<open>SyntaxError\<close> of the \<^verbatim>\<open>RegExp\<close> constructor reaches the caller. A parameter that does
  not exclude is never compiled on its own.
\<close>

theorem search_returns_iff_patterns_compile:
  "((\<exists>ys. doSearchFilter rx S R = Inr ys) \<longleftrightarrow>
      rx S ''i'' \<noteq> None
      \<and> (\<forall>p \<in> set (split CHR '' '' S). excludes p \<longrightarrow> rx (slice1 p) ''i'' \<noteq> None))
 \<and> ((\<exists>is. doSearchIndex rx S R = Inr is) \<longleftrightarrow>
      rx S ''i'' \<noteq> None
      \<and> (\<forall>p \<in> set (split CHR '' '' S). excludes p \<longrightarrow> rx (slice1 p) ''i'' \<noteq> None))"
proof (cases "rx S ''i''")
  case None
  then show ?thesis by (simp add: doSearchFilter_def doSearchIndex_def)
next
  case (Some re)
  then show ?thesis
    by (simp add: doSearchFilter_def doSearchIndex_def filterEach_returns indexEach_returns)
qed

theorem search_returns_iff_patterns_compile_witness:
  "(\<exists>ys. doSearchFilter literalRegExp ''a !b'' abc = Inr ys)
 \<and> (\<exists>is. doSearchIndex literalRegExp ''a !b'' abc = Inr is)"
  using search_returns_iff_patterns_compile [of literalRegExp "''a !b''" abc]
  by (simp add: literalRegExp_def syntaxCharacters_def excludes_def startsWith_def slice1_def)

text \<open>
  C4, as the spec has it, fails: the search text \<^verbatim>\<open>(\<close>, an unterminated group, makes both
  functions raise.
\<close>

theorem unterminated_group_raises:
  "doSearchFilter literalRegExp ''('' abc = Inl SyntaxError
 \<and> doSearchIndex literalRegExp ''('' abc = Inl SyntaxError"
  by (simp add: search_defs logEntry_def)

subsection \<open>Searches of one term\<close>

text \<open>
  C9, as the code has it. Let \<open>x\<close> be a single parameter (not empty, no space) that does
  not itself exclude, and let \<open>x\<close> and \<open>!x\<close> both compile, \<open>x\<close> to the test \<open>m\<close>. Then the
  search for \<open>x\<close> keeps the records whose message passes \<open>m\<close> and the search for \<open>!x\<close>
  keeps the records whose message does not, each in the order of the list: every record
  of the list is in exactly one of the two results.
\<close>

theorem exclusion_is_complement:
  assumes "x \<noteq> []" and "CHR '' '' \<notin> set x" and "\<not> excludes x"
    and "rx x ''i'' = Some m" and "rx (CHR ''!'' # x) ''i'' = Some m'"
  shows "doSearchFilter rx x R = Inr (filter (\<lambda>a. m (message a)) R)
       \<and> doSearchFilter rx (CHR ''!'' # x) R = Inr (filter (\<lambda>a. \<not> m (message a)) R)"
proof -
  have sp: "split CHR '' '' x = [x]" "split CHR '' '' (CHR ''!'' # x) = [CHR ''!'' # x]"
    using assms(2) by (simp_all add: split_single)
  have ex: "excludes (CHR ''!'' # x)"
    using assms(1) by (simp add: excludes_def startsWith_def)
  have ds: "doSearch x m = (\<lambda>a. m (message a))"
    "doExclude (CHR ''!'' # x) m = (\<lambda>a. \<not> m (message a))"
    using assms(1) by (simp_all add: doSearch_def doExclude_def fun_eq_iff)
  show ?thesis
    using sp ex ds assms(3,4,5) by (simp add: doSearchFilter_def slice1_def)
qed

theorem exclusion_is_complement_witness:
  "doSearchFilter literalRegExp ''b'' abc = Inr [logEntry 1 ''info'' ''b'']
 \<and> doSearchFilter literalRegExp ''!b'' abc = Inr [logEntry 0 ''info'' ''a'', logEntry 2 ''info'' ''c'']"
proof -
  have c: "literalRegExp ''b'' ''i'' = Some (occursIn canonicalize ''b'')"
    "literalRegExp ''!b'' ''i'' = Some (occursIn canonicalize ''!b'')"
    by (simp_all add: literalRegExp_def syntaxCharacters_def)
  have "doSearchFilter literalRegExp ''b'' abc =
          Inr (filter (\<lambda>a. occursIn canonicalize ''b'' (message a)) abc)
      \<and> doSearchFilter literalRegExp ''!b'' abc =
          Inr (filter (\<lambda>a. \<not> occursIn canonicalize ''b'' (message a)) abc)"
    using c exclusion_is_complement [where x = "''b''" and rx = literalRegExp
        and m = "occursIn canonicalize ''b''" and m' = "occursIn canonicalize ''!b''"
        and R = abc]
    by (simp add: excludes_def startsWith_def)
  then show ?thesis
    by (simp add: abc_def logEntry_def canonicalize_def)
qed

text \<open>
  C9, as the spec has it, fails when \<open>x\<close> itself excludes. For \<open>x\<close> = "!y" the search "!!y"
  drops the messages that contain "!y" and the search "!y" drops those that contain "y":
  the record "a" is in both results.
\<close>

theorem double_exclusion_is_no_complement:
  "doSearchFilter literalRegExp ''!!y'' [logEntry 0 ''info'' ''a''] = Inr [logEntry 0 ''info'' ''a'']
 \<and> doSearchFilter literalRegExp ''!y'' [logEntry 0 ''info'' ''a''] = Inr [logEntry 0 ''info'' ''a'']"
  by (simp add: search_defs logEntry_def)

text \<open>
  C10, as the code has it. Let \<open>S\<close> be a search text that is not empty, has no space and
  does not start with \<^verbatim>\<open>!\<close>, and let \<^verbatim>\<open>new RegExp(S, 'i')\<close> compile, to the test \<open>m\<close>. Then
  the filtering search returns the records whose message passes \<open>m\<close>, in the order of the
  list, and the indexing search returns their positions, each once and in strictly
  increasing order.
\<close>

theorem single_inclusion_term:
  assumes "S \<noteq> []" and "CHR '' '' \<notin> set S" and "\<not> startsWith S ''!''"
    and "rx S ''i'' = Some m"
  shows "doSearchFilter rx S R = Inr (filter (\<lambda>a. m (message a)) R)
       \<and> doSearchIndex rx S R = Inr (filter (\<lambda>i. m (message (R ! i))) [0..<length R])
       \<and> sorted_wrt (<) (filter (\<lambda>i. m (message (R ! i))) [0..<length R])"
proof -
  have ex: "\<not> excludes S"
    using assms(3) by (simp add: excludes_def)
  have sp: "split CHR '' '' S = [S]"
    using assms(2) by (rule split_single)
  have ds: "doSearch S m = (\<lambda>a. m (message a))"
    using assms(1) by (simp add: doSearch_def fun_eq_iff)
  show ?thesis
    using ex sp assms(4)
    by (simp add: doSearchFilter_def doSearchIndex_def ds pushEach_first sorted_wrt_filter
        del: upt_Suc)
qed

theorem single_inclusion_term_witness:
  "doSearchFilter literalRegExp ''B'' abc = Inr [logEntry 1 ''info'' ''b'']
 \<and> doSearchIndex literalRegExp ''B'' abc = Inr [1]"
proof -
  have c: "literalRegExp ''B'' ''i'' = Some (occursIn canonicalize ''B'')"
    by (simp add: literalRegExp_def syntaxCharacters_def)
  have "doSearchFilter literalRegExp ''B'' abc =
          Inr (filter (\<lambda>a. occursIn canonicalize ''B'' (message a)) abc)
      \<and> doSearchIndex literalRegExp ''B'' abc =
          Inr (filter (\<lambda>i. occursIn canonicalize ''B'' (message (abc ! i))) [0..<length abc])"
    using c single_inclusion_term [where S = "''B''" and rx = literalRegExp
        and m = "occursIn canonicalize ''B''" and R = abc]
    by (simp add: startsWith_def)
  then show ?thesis
    by (simp add: abc_def logEntry_def canonicalize_def upt_conv_Cons)
qed

text \<open>
  C10, as the spec has it, fails for a search text that does not compile: \<^verbatim>\<open>foo(\<close> is not
  empty, has no space and does not start with \<^verbatim>\<open>!\<close>, and both searches raise.
\<close>

theorem single_term_may_not_compile:
  "''foo('' \<noteq> [] \<and> CHR '' '' \<notin> set ''foo('' \<and> \<not> startsWith ''foo('' ''!''
 \<and> doSearchFilter literalRegExp ''foo('' scenario2 = Inl SyntaxError
 \<and> doSearchIndex literalRegExp ''foo('' scenario2 = Inl SyntaxError"
  by (simp add: search_defs)

section \<open>Facts about the pipeline\<close>

lemmas table_defs =
  sortFilterList_def noOptions_def shouldFilter_def noSort_def truthy_def filterStep_def
  searchStep_def sortStep_def reverseStep_def doFilter_def truthyProperty_def
  objectPrototype_def ASC_def DESC_def

subsection \<open>Sorting\<close>

text \<open>
  The sort keeps the entries and their number, and for a comparison that is total and
  transitive its result ascends.
\<close>

lemma mset_insertBy: "mset (insertBy cmp x ys) = add_mset x (mset ys)"
  by (induction ys) simp_all

lemma mset_sortBy_cmp: "mset (sortBy_cmp cmp xs) = mset xs"
  by (induction xs) (simp_all add: sortBy_cmp_def mset_insertBy)

lemma set_sortBy_cmp: "set (sortBy_cmp cmp xs) = set xs"
  using mset_sortBy_cmp [of cmp xs] by (metis set_mset_mset)

lemma sorted_insertBy:
  assumes total: "\<And>a b. cmp a b \<le> 0 \<or> cmp b a \<le> 0"
    and trans: "\<And>a b c. cmp a b \<le> 0 \<Longrightarrow> cmp b c \<le> 0 \<Longrightarrow> cmp a c \<le> 0"
    and "sorted_wrt (\<lambda>a b. cmp a b \<le> 0) ys"
  shows "sorted_wrt (\<lambda>a b. cmp a b \<le> 0) (insertBy cmp x ys)"
  using assms(3)
proof (induction ys)
  case Nil
  show ?case by simp
next
  case (Cons y ys)
  show ?case
  proof (cases "cmp x y \<le> 0")
    case True
    with Cons.prems show ?thesis
      by (auto intro: trans)
  next
    case False
    then have "cmp y x \<le> 0"
      using total [of x y] by simp
    moreover have "set (insertBy cmp x ys) = insert x (set ys)"
      using mset_insertBy [of cmp x ys] by (metis set_mset_add_mset_insert set_mset_mset)
    ultimately show ?thesis
      using False Cons by auto
  qed
qed

lemma sorted_sortBy_cmp:
  assumes "\<And>a b. cmp a b \<le> 0 \<or> cmp b a \<le> 0"
    and "\<And>a b c. cmp a b \<le> 0 \<Longrightarrow> cmp b c \<le> 0 \<Longrightarrow> cmp a c \<le> 0"
  shows "sorted_wrt (\<lambda>a b. cmp a b \<le> 0) (sortBy_cmp cmp xs)"
proof (induction xs)
  case Nil
  show ?case by (simp add: sortBy_cmp_def)
next
  case (Cons x xs)
  have "sortBy_cmp cmp (x # xs) = insertBy cmp x (sortBy_cmp cmp xs)"
    by (simp add: sortBy_cmp_def)
  with Cons show ?case
    using sorted_insertBy [of cmp "sortBy_cmp cmp xs" x] assms by simp
qed

lemma set_sortStep: "set (sortStep lc sb xs) = set xs"
  by (simp add: sortStep_def set_sortBy_cmp)

lemma set_reverseStep: "set (reverseStep sd xs) = set xs"
  by (simp add: reverseStep_def)

lemma sortStep_noSort: "noSort sb sd \<Longrightarrow> sortStep lc sb xs = xs"
  by (auto simp add: noSort_def sortStep_def truthy_def)

lemma reverseStep_noSort: "noSort sb sd \<Longrightarrow> reverseStep sd xs = xs"
  by (auto simp add: noSort_def reverseStep_def truthy_def ASC_def DESC_def)

subsection \<open>Searching narrows\<close>

lemma filterEach_narrows:
  "filterEach rx s ps re xs = Inr ys \<Longrightarrow> set ys \<subseteq> set xs"
proof (induction ps arbitrary: re xs)
  case Nil
  then show ?case by simp
next
  case (Cons p ps)
  show ?case
  proof (cases "excludes p")
    case True
    with Cons.prems obtain re' where
      "filterEach rx s ps re' (filter (doExclude s re') xs) = Inr ys"
      by (auto split: option.splits)
    from Cons.IH [OF this] show ?thesis by auto
  next
    case False
    with Cons.prems have "filterEach rx s ps re (filter (doSearch s re) xs) = Inr ys"
      by simp
    from Cons.IH [OF this] show ?thesis by auto
  qed
qed

lemma searchStep_narrows:
  "searchStep rx s b xs = Inr ys \<Longrightarrow> set ys \<subseteq> set xs"
  by (auto simp add: searchStep_def doSearchFilter_def
      split: option.splits if_splits dest: filterEach_narrows)

lemma searchStep_off: "\<not> (truthy s \<and> b) \<Longrightarrow> searchStep rx s b xs = Inr xs"
  by (auto simp add: searchStep_def truthy_def split: option.splits)

subsection \<open>Options\<close>

lemma shouldFilter_Some:
  "shouldFilter props (Some flt) =
     (\<not> (list_all (\<lambda>k. truthyProperty flt k) (map fst flt)
         \<or> list_all (\<lambda>k. \<not> truthyProperty flt k) (map fst flt)))"
  by (simp add: shouldFilter_def Let_def)

lemma shouldFilter_given:
  "shouldFilter props (Some (levelFilter props)) = shouldFilter props None"
  by (simp add: shouldFilter_def)

text \<open>
  An option of \<^verbatim>\<open>sortFilterList\<close> stands in for the property or the state field of its
  name; an option that is absent (or an empty sort key or direction) leaves it as it is.
\<close>

lemma sortFilterList_options:
  "sortFilterList rx lc props state options =
     sortFilterList rx lc
       (props\<lparr>logFile := (case optLogFile options of None \<Rightarrow> logFile props | Some f \<Rightarrow> Some f),
              levelFilter := (case optFilter options of None \<Rightarrow> levelFilter props | Some f \<Rightarrow> f),
              search := (case optSearch options of None \<Rightarrow> search props | Some t \<Rightarrow> Some t),
              showOnlySearchResults :=
                (case optShowOnlySearchResults options of
                   None \<Rightarrow> showOnlySearchResults props | Some b \<Rightarrow> b)\<rparr>)
       (state\<lparr>sortBy := (if truthy (optSortBy options) then optSortBy options else sortBy state),
              sortDirection := (if truthy (optSortDirection options) then optSortDirection options
                                else sortDirection state)\<rparr>)
       noOptions"
proof -
  have "\<not> truthy None"
    by (simp add: truthy_def)
  then show ?thesis
    by (cases "optLogFile options"; cases "optFilter options"; cases "optSearch options";
        cases "optShowOnlySearchResults options"; cases "logFile props")
      (auto simp add: sortFilterList_def noOptions_def Let_def shouldFilter_Some)
qed

text \<open>Without options the pipeline reads the properties and the state.\<close>

lemma sortFilterList_noOptions:
  assumes "logFile props = Some source"
  shows "sortFilterList rx lc props state noOptions =
     (if noSort (sortBy state) (sortDirection state) \<and> \<not> shouldFilter props None
         \<and> \<not> truthy (search props)
      then Inr (SourceArray (logEntries source))
      else
        (case searchStep rx (search props) (showOnlySearchResults props)
                (filterStep (shouldFilter props None) (levelFilter props) (logEntries source)) of
           Inl e \<Rightarrow> Inl e
         | Inr found \<Rightarrow>
             Inr (NewArray (reverseStep (sortDirection state) (sortStep lc (sortBy state) found)))))"
proof -
  have "(case search props of None \<Rightarrow> None | Some s \<Rightarrow> Some s) = search props"
    by (cases "search props") simp_all
  moreover have "\<not> truthy None"
    by (simp add: truthy_def)
  ultimately show ?thesis
    using assms
    by (simp add: sortFilterList_def noOptions_def Let_def shouldFilter_given)
qed

lemma sortFilterList_noFile:
  "logFile props = None \<Longrightarrow> sortFilterList rx lc props state noOptions = Inr (NewArray [])"
  by (simp add: sortFilterList_def noOptions_def Let_def)

text \<open>Of the properties the pipeline reads four fields.\<close>

lemma sortFilterList_reads:
  assumes "logFile q = logFile q'" and "levelFilter q = levelFilter q'"
    and "search q = search q'" and "showOnlySearchResults q = showOnlySearchResults q'"
  shows "sortFilterList rx lc q s noOptions = sortFilterList rx lc q' s noOptions"
proof (cases "logFile q'")
  case None
  with assms(1) show ?thesis
    by (simp add: sortFilterList_noFile)
next
  case (Some source)
  with assms show ?thesis
    by (simp add: sortFilterList_noOptions shouldFilter_def)
qed

subsection \<open>The level filter\<close>

text \<open>For a key the filter has, \<^verbatim>\<open>filter[k]\<close> is the value stored under it.\<close>

lemma truthyProperty_own:
  "k \<in> set (map fst flt) \<Longrightarrow> truthyProperty flt k = (map_of flt k = Some True)"
proof -
  assume "k \<in> set (map fst flt)"
  then obtain b where "map_of flt k = Some b"
    by (cases "map_of flt k") (auto simp add: map_of_eq_None_iff)
  then show ?thesis
    by (simp add: truthyProperty_def)
qed

lemma shouldFilter_own:
  "shouldFilter props None =
     (\<not> (list_all (\<lambda>k. map_of (levelFilter props) k = Some True) (map fst (levelFilter props))
         \<or> list_all (\<lambda>k. map_of (levelFilter props) k \<noteq> Some True)
              (map fst (levelFilter props))))"
  by (simp add: shouldFilter_def Let_def list_all_iff truthyProperty_own)

text \<open>
  C6, as the code has it. The filter step never fails, whatever keys the filter \<open>F\<close> has.
  It returns the list unchanged when the keys \<open>F\<close> does have are all enabled or all
  disabled. In every other case it keeps exactly the entries whose level is not empty and
  reads truthy in \<open>F\<close>: enabled where \<open>F\<close> has the level as a key, and, where it has not,
  only for a level that names a member of \<^verbatim>\<open>Object.prototype\<close>, which \<open>F\<close> inherits. So an
  entry with an ordinary level that has no key in \<open>F\<close> is dropped. With the default sort
  and no search that narrows the list this is what the pipeline returns; with any sort and
  any search, every entry the pipeline returns has passed the filter.
\<close>

theorem level_filter_fails_closed:
  fixes props :: LogTableProps and source :: LogFile
  defines "F \<equiv> levelFilter props"
  defines "allSame \<equiv>
    list_all (\<lambda>k. map_of F k = Some True) (map fst F)
    \<or> list_all (\<lambda>k. map_of F k \<noteq> Some True) (map fst F)"
  defines "passes \<equiv> (\<lambda>a. level a \<noteq> [] \<and>
    (case map_of F (level a) of Some b \<Rightarrow> b | None \<Rightarrow> level a \<in> set objectPrototype))"
  assumes "logFile props = Some source"
  shows "filterStep (shouldFilter props None) F (logEntries source) =
           (if allSame then logEntries source else filter passes (logEntries source))
       \<and> (noSort (sortBy state) (sortDirection state)
            \<and> \<not> (truthy (search props) \<and> showOnlySearchResults props) \<longrightarrow>
          (\<exists>r. sortFilterList rx lc props state noOptions = Inr r \<and>
             entries r = (if allSame then logEntries source else filter passes (logEntries source))))
       \<and> (\<forall>r. sortFilterList rx lc props state noOptions = Inr r \<and> \<not> allSame \<longrightarrow>
             set (entries r) \<subseteq> {a. a \<in> set (logEntries source) \<and> passes a})"
proof -
  have sf: "shouldFilter props None = (\<not> allSame)"
    unfolding allSame_def F_def by (rule shouldFilter_own)
  have df: "doFilter F = passes"
    by (simp add: doFilter_def passes_def truthyProperty_def fun_eq_iff)
  have stage: "filterStep (shouldFilter props None) F (logEntries source) =
           (if allSame then logEntries source else filter passes (logEntries source))"
    by (simp add: filterStep_def sf df)
  have plain: "\<exists>r. sortFilterList rx lc props state noOptions = Inr r \<and>
             entries r = (if allSame then logEntries source else filter passes (logEntries source))"
    if "noSort (sortBy state) (sortDirection state)"
      and "\<not> (truthy (search props) \<and> showOnlySearchResults props)"
  proof -
    have off: "searchStep rx (search props) (showOnlySearchResults props) xs = Inr xs" for xs
      using that(2) by (rule searchStep_off)
    have id: "reverseStep (sortDirection state) (sortStep lc (sortBy state) xs) = xs" for xs
      using that(1) by (simp add: sortStep_noSort reverseStep_noSort)
    show ?thesis
    proof (cases allSame)
      case True
      then have "\<not> shouldFilter props None"
        by (simp add: sf)
      with True show ?thesis
        by (simp add: sortFilterList_noOptions [OF assms(4)] off id filterStep_def)
    next
      case False
      then have "shouldFilter props None"
        by (simp add: sf)
      with False show ?thesis
        by (simp add: sortFilterList_noOptions [OF assms(4)] F_def [symmetric] off id
            filterStep_def df)
    qed
  qed
  have closed: "set (entries r) \<subseteq> {a. a \<in> set (logEntries source) \<and> passes a}"
    if r: "sortFilterList rx lc props state noOptions = Inr r" and d: "\<not> allSame" for r
  proof -
    from d have on: "shouldFilter props None"
      by (simp add: sf)
    with r obtain found where
      f: "searchStep rx (search props) (showOnlySearchResults props)
            (filterStep True F (logEntries source)) = Inr found"
      and e: "r = NewArray (reverseStep (sortDirection state) (sortStep lc (sortBy state) found))"
      by (auto simp add: sortFilterList_noOptions [OF assms(4)] F_def [symmetric]
          split: sum.splits)
    have "set found \<subseteq> set (filter passes (logEntries source))"
      using searchStep_narrows [OF f] by (simp add: filterStep_def df)
    then show ?thesis
      by (auto simp add: e set_reverseStep set_sortStep)
  qed
  show ?thesis
    using stage plain closed by blast
qed

theorem level_filter_fails_closed_witness:
  "\<exists>r. sortFilterList literalRegExp codeUnitCompare
          (exampleProps oddLevels infoOnly None False) initialState noOptions = Inr r
      \<and> entries r = [logEntry 1 ''info'' ''i'', logEntry 2 ''constructor'' ''k'']"
proof -
  have "logFile (exampleProps oddLevels infoOnly None False)
          = Some \<lparr>logEntries = oddLevels, logType = ''browser''\<rparr>"
    by (simp add: exampleProps_def)
  from level_filter_fails_closed [OF this, of initialState literalRegExp codeUnitCompare]
  show ?thesis
    by (simp add: exampleProps_def initialState_def infoOnly_def oddLevels_def noSort_def
        truthy_def ASC_def logEntry_def objectPrototype_def)
qed

text \<open>
  C6, as the spec has it, fails: with the filter \<^verbatim>\<open>{info: true, error: false}\<close>, which lacks
  the keys of the other levels, an entry of level \<^verbatim>\<open>warn\<close> is dropped and the list is not
  returned unchanged.
\<close>

theorem missing_level_key_drops_entry:
  "sortFilterList literalRegExp codeUnitCompare
     (exampleProps [logEntry 0 ''warn'' ''w''] infoOnly None False) initialState noOptions
   = Inr (NewArray [])"
  by (simp add: table_defs initialState_def exampleProps_def logEntry_def infoOnly_def)

subsection \<open>The early return\<close>

text \<open>
  C8, as the code has it. With the default sort, a level filter that does not filter and
  no search that narrows the list, the pipeline returns the entries of the log file in
  their order. It returns the array of the log file itself when the search text is empty
  or absent; when a search text is present (and matches are only highlighted) it returns
  a copy.
\<close>

theorem default_view_returns_source:
  assumes "logFile props = Some source"
    and "noSort (sortBy state) (sortDirection state)"
    and "\<not> shouldFilter props None"
    and "\<not> (truthy (search props) \<and> showOnlySearchResults props)"
  shows "sortFilterList rx lc props state noOptions =
           Inr (if truthy (search props) then NewArray (logEntries source)
                else SourceArray (logEntries source))"
  unfolding sortFilterList_noOptions [OF assms(1)]
  using assms(2,3,4)
  by (simp add: searchStep_off sortStep_noSort reverseStep_noSort filterStep_def)

theorem default_view_returns_source_witness:
  "sortFilterList literalRegExp codeUnitCompare (exampleProps abc noLevels None False)
     initialState noOptions = Inr (SourceArray abc)"
  using default_view_returns_source [where rx = literalRegExp and lc = codeUnitCompare
      and props = "exampleProps abc noLevels None False" and state = initialState
      and source = "\<lparr>logEntries = abc, logType = ''browser''\<rparr>"]
  by (simp add: exampleProps_def initialState_def noLevels_def noSort_def truthy_def ASC_def
      shouldFilter_def truthyProperty_def)

text \<open>
  C8, as the spec has it, fails in one case: no search narrows the list, but a search text
  is present and its matches are highlighted. The pipeline then returns a copy of the
  source's array, not the array itself.
\<close>

theorem highlighting_search_copies_source:
  "sortFilterList literalRegExp codeUnitCompare (exampleProps abc noLevels (Some ''b'') False)
     initialState noOptions = Inr (NewArray abc)
 \<and> NewArray abc \<noteq> SourceArray abc"
  by (simp add: table_defs initialState_def exampleProps_def noLevels_def)

section \<open>Facts about the life cycle\<close>

lemma didFilterChange_same: "\<not> didFilterChange f f"
  by (simp add: didFilterChange_def list_ex_iff)

subsection \<open>When the pipeline runs again\<close>

text \<open>
  C5, as the code has it. \<^verbatim>\<open>didFilterChange\<close> is any function that reports no change
  between a filter and itself. The properties count as changed when \<^verbatim>\<open>didFilterChange\<close>
  reports a change of the level filter, or the search text or the only-matches flag
  changed, or a log file appears where there was none, or the number of entries or the
  type of the log file changed. \<^verbatim>\<open>componentWillReceiveProps\<close> runs the pipeline again if
  and only if they changed: then the displayed list is what \<^verbatim>\<open>sortFilterList\<close> returns for
  the next properties (for a search text or a log file the next properties lack, the
  previous one is read) and the list of matches is computed on it from the next search
  text; otherwise both lists stay as they are. In both cases a move of the search cursor
  clears \<^verbatim>\<open>ignoreSearchIndex\<close>. A move of the cursor alone runs nothing, the same
  properties again leave the state as it is, and a click on a row leaves both lists as
  they are. \<^verbatim>\<open>onSortChange\<close> runs the pipeline again, with the new key and direction, if
  and only if the key or the direction differs from the state's.
\<close>

theorem recompute_policy:
  fixes p p' :: LogTableProps and s :: LogTableState
    and dfc :: "LevelFilter \<Rightarrow> LevelFilter \<Rightarrow> bool" and rx :: RegExpConstructor
  defines "changed \<equiv>
    dfc (levelFilter p) (levelFilter p')
    \<or> search p \<noteq> search p'
    \<or> showOnlySearchResults p \<noteq> showOnlySearchResults p'
    \<or> (logFile p = None \<and> logFile p' \<noteq> None)
    \<or> (\<exists>f f'. logFile p = Some f \<and> logFile p' = Some f' \<and>
          (length (logEntries f) \<noteq> length (logEntries f') \<or> logType f \<noteq> logType f'))"
  defines "cursor \<equiv>
    (\<lambda>t. if searchIndex p \<noteq> searchIndex p' then t\<lparr>ignoreSearchIndex := False\<rparr> else t)"
  defines "upcoming \<equiv>
    p'\<lparr>logFile := (case logFile p' of None \<Rightarrow> logFile p | Some f \<Rightarrow> Some f),
       search := (case search p' of None \<Rightarrow> search p | Some t \<Rightarrow> Some t)\<rparr>"
  defines "matches \<equiv>
    (\<lambda>list. case search p' of
               None \<Rightarrow> Inr []
             | Some t \<Rightarrow> if \<not> showOnlySearchResults p' \<and> t \<noteq> []
                         then doSearchIndex rx t list else Inr [])"
  assumes same: "\<And>f. \<not> dfc f f"
  shows "(changed \<longrightarrow>
            componentWillReceiveProps rx lc dfc p s p' =
              (case sortFilterList rx lc upcoming s noOptions of
                 Inl e \<Rightarrow> Inl e
               | Inr returned \<Rightarrow>
                   (case matches (entries returned) of
                      Inl e \<Rightarrow> Inl e
                    | Inr found \<Rightarrow>
                        Inr (cursor (s\<lparr>sortedList := entries returned, searchList := found\<rparr>)))))
       \<and> (\<not> changed \<longrightarrow> componentWillReceiveProps rx lc dfc p s p' = Inr (cursor s))
       \<and> componentWillReceiveProps rx lc dfc p s (p\<lparr>searchIndex := k\<rparr>) =
            Inr (if searchIndex p \<noteq> k then s\<lparr>ignoreSearchIndex := False\<rparr> else s)
       \<and> componentWillReceiveProps rx lc dfc p s p = Inr s
       \<and> sortedList (onRowClick s i) = sortedList s
       \<and> searchList (onRowClick s i) = searchList s
       \<and> (sortBy s = Some sb \<and> sortDirection s = Some sd \<longrightarrow>
            onSortChange rx lc p s sb sd = Inr s)
       \<and> (sortBy s \<noteq> Some sb \<or> sortDirection s \<noteq> Some sd \<longrightarrow>
            onSortChange rx lc p s sb sd =
              (case sortFilterList rx lc p
                      (s\<lparr>sortBy := (if sb \<noteq> [] then Some sb else sortBy s),
                         sortDirection := (if sd \<noteq> [] then Some sd else sortDirection s)\<rparr>)
                      noOptions of
                 Inl e \<Rightarrow> Inl e
               | Inr returned \<Rightarrow>
                   Inr (s\<lparr>sortBy := Some sb, sortDirection := Some sd,
                          sortedList := entries returned\<rparr>)))"
proof -
  have guard: "propsChanged dfc p p' = changed"
    unfolding changed_def
    by (auto simp add: propsChanged_def searchChanged_def fileChanged_def split: option.splits)
  have again: "sortFilterList rx lc p s
      \<lparr>optSortBy = None, optSortDirection = None, optFilter = Some (levelFilter p'),
       optSearch = search p', optLogFile = logFile p',
       optShowOnlySearchResults = Some (showOnlySearchResults p')\<rparr>
      = sortFilterList rx lc upcoming s noOptions"
  proof -
    have "\<not> truthy None"
      by (simp add: truthy_def)
    then have "sortFilterList rx lc p s
      \<lparr>optSortBy = None, optSortDirection = None, optFilter = Some (levelFilter p'),
       optSearch = search p', optLogFile = logFile p',
       optShowOnlySearchResults = Some (showOnlySearchResults p')\<rparr>
      = sortFilterList rx lc
          (p\<lparr>logFile := (case logFile p' of None \<Rightarrow> logFile p | Some f \<Rightarrow> Some f),
             levelFilter := levelFilter p',
             search := (case search p' of None \<Rightarrow> search p | Some t \<Rightarrow> Some t),
             showOnlySearchResults := showOnlySearchResults p'\<rparr>) s noOptions"
      by (subst sortFilterList_options) simp
    moreover have "sortFilterList rx lc
          (p\<lparr>logFile := (case logFile p' of None \<Rightarrow> logFile p | Some f \<Rightarrow> Some f),
             levelFilter := levelFilter p',
             search := (case search p' of None \<Rightarrow> search p | Some t \<Rightarrow> Some t),
             showOnlySearchResults := showOnlySearchResults p'\<rparr>) s noOptions
      = sortFilterList rx lc upcoming s noOptions"
      unfolding upcoming_def
      by (rule sortFilterList_reads) simp_all
    ultimately show ?thesis by simp
  qed
  have found: "makeSearchList rx p' list = matches list" for list
    by (simp add: makeSearchList_def matches_def)
  have a: "changed \<longrightarrow>
            componentWillReceiveProps rx lc dfc p s p' =
              (case sortFilterList rx lc upcoming s noOptions of
                 Inl e \<Rightarrow> Inl e
               | Inr returned \<Rightarrow>
                   (case matches (entries returned) of
                      Inl e \<Rightarrow> Inl e
                    | Inr found \<Rightarrow>
                        Inr (cursor (s\<lparr>sortedList := entries returned, searchList := found\<rparr>))))"
    by (simp add: componentWillReceiveProps_def Let_def guard again found cursor_def
        split: sum.splits)
  have b: "\<not> changed \<longrightarrow> componentWillReceiveProps rx lc dfc p s p' = Inr (cursor s)"
    by (simp add: componentWillReceiveProps_def Let_def guard cursor_def)
  have quiet: "\<not> propsChanged dfc p (p\<lparr>searchIndex := k\<rparr>)" for k
    using same
    by (simp add: propsChanged_def searchChanged_def fileChanged_def split: option.splits)
  have c: "componentWillReceiveProps rx lc dfc p s (p\<lparr>searchIndex := k\<rparr>) =
            Inr (if searchIndex p \<noteq> k then s\<lparr>ignoreSearchIndex := False\<rparr> else s)"
    using quiet [of k] by (simp add: componentWillReceiveProps_def Let_def)
  have d: "componentWillReceiveProps rx lc dfc p s p = Inr s"
    using quiet [of "searchIndex p"] by (simp add: componentWillReceiveProps_def Let_def)
  have e: "sortedList (onRowClick s i) = sortedList s"
    "searchList (onRowClick s i) = searchList s"
    by (simp_all add: onRowClick_def)
  have f: "sortBy s = Some sb \<and> sortDirection s = Some sd \<longrightarrow>
            onSortChange rx lc p s sb sd = Inr s"
    by (simp add: onSortChange_def)
  have g: "sortBy s \<noteq> Some sb \<or> sortDirection s \<noteq> Some sd \<longrightarrow>
            onSortChange rx lc p s sb sd =
              (case sortFilterList rx lc p
                      (s\<lparr>sortBy := (if sb \<noteq> [] then Some sb else sortBy s),
                         sortDirection := (if sd \<noteq> [] then Some sd else sortDirection s)\<rparr>)
                      noOptions of
                 Inl e \<Rightarrow> Inl e
               | Inr returned \<Rightarrow>
                   Inr (s\<lparr>sortBy := Some sb, sortDirection := Some sd,
                          sortedList := entries returned\<rparr>))"
  proof -
    have "sortFilterList rx lc p s
            (noOptions\<lparr>optSortBy := Some sb, optSortDirection := Some sd\<rparr>)
          = sortFilterList rx lc p
              (s\<lparr>sortBy := (if sb \<noteq> [] then Some sb else sortBy s),
                 sortDirection := (if sd \<noteq> [] then Some sd else sortDirection s)\<rparr>)
              noOptions"
      by (subst sortFilterList_options) (simp add: noOptions_def truthy_def)
    then show ?thesis
      by (simp add: onSortChange_def)
  qed
  show ?thesis
    using a b c d e f g by blast
qed

theorem recompute_policy_witness:
  "componentWillReceiveProps literalRegExp codeUnitCompare didFilterChange
     (exampleProps mixedLog noLevels None False) (mounted abc)
     (exampleProps mixedLog infoAndError None False)
   = Inr ((mounted abc)
            \<lparr>sortedList := [logEntry 0 ''info'' ''b x'', logEntry 2 ''info'' ''q'',
                            logEntry 3 ''error'' ''c x'', logEntry 4 ''info'' ''a x''],
             searchList := []\<rparr>)
 \<and> componentWillReceiveProps literalRegExp codeUnitCompare didFilterChange
     (exampleProps mixedLog noLevels None False) (mounted abc)
     (exampleProps mixedLog noLevels (Some ''x'') False)
   = Inr ((mounted abc)\<lparr>sortedList := mixedLog, searchList := [0, 1, 3, 4]\<rparr>)
 \<and> componentWillReceiveProps literalRegExp codeUnitCompare didFilterChange
     (exampleProps mixedLog noLevels None False) (mounted abc)
     (exampleProps mixedLog noLevels None False)
   = Inr (mounted abc)
 \<and> componentWillReceiveProps literalRegExp codeUnitCompare didFilterChange
     (exampleProps mixedLog noLevels None False) (mounted abc)
     ((exampleProps mixedLog noLevels None False)\<lparr>searchIndex := 4\<rparr>)
   = Inr ((mounted abc)\<lparr>ignoreSearchIndex := False\<rparr>)"
proof -
  note policy = recompute_policy [where dfc = didFilterChange and rx = literalRegExp
      and lc = codeUnitCompare and p = "exampleProps mixedLog noLevels None False"
      and s = "mounted abc", OF didFilterChange_same]
  have filtered: "componentWillReceiveProps literalRegExp codeUnitCompare didFilterChange
     (exampleProps mixedLog noLevels None False) (mounted abc)
     (exampleProps mixedLog infoAndError None False)
   = Inr ((mounted abc)
            \<lparr>sortedList := [logEntry 0 ''info'' ''b x'', logEntry 2 ''info'' ''q'',
                            logEntry 3 ''error'' ''c x'', logEntry 4 ''info'' ''a x''],
             searchList := []\<rparr>)"
    using policy [where p' = "exampleProps mixedLog infoAndError None False"]
    by (simp add: table_defs exampleProps_def mounted_def initialState_def didFilterChange_def
        noLevels_def infoAndError_def mixedLog_def logEntry_def)
  have searched: "componentWillReceiveProps literalRegExp codeUnitCompare didFilterChange
     (exampleProps mixedLog noLevels None False) (mounted abc)
     (exampleProps mixedLog noLevels (Some ''x'') False)
   = Inr ((mounted abc)\<lparr>sortedList := mixedLog, searchList := [0, 1, 3, 4]\<rparr>)"
    using policy [where p' = "exampleProps mixedLog noLevels (Some ''x'') False"]
    by (simp add: table_defs search_defs exampleProps_def mounted_def initialState_def
        didFilterChange_def noLevels_def mixedLog_def logEntry_def)
  have cursor: "componentWillReceiveProps literalRegExp codeUnitCompare didFilterChange
     (exampleProps mixedLog noLevels None False) (mounted abc)
     ((exampleProps mixedLog noLevels None False)\<lparr>searchIndex := 4\<rparr>)
   = Inr ((mounted abc)\<lparr>ignoreSearchIndex := False\<rparr>)"
    using policy [where k = 4] by (simp add: exampleProps_def)
  show ?thesis
    using filtered searched cursor policy by simp
qed

text \<open>
  C5, as the spec has it, fails: a log file replaced by another one with as many entries
  and the same type is not detected. The handler keeps the list computed from the old
  file.
\<close>

theorem replaced_source_not_detected:
  "logFile (exampleProps abc noLevels None False) \<noteq> logFile (exampleProps xyz noLevels None False)
 \<and> \<not> propsChanged didFilterChange (exampleProps abc noLevels None False)
       (exampleProps xyz noLevels None False)
 \<and> componentWillReceiveProps literalRegExp codeUnitCompare didFilterChange
     (exampleProps abc noLevels None False) (mounted abc) (exampleProps xyz noLevels None False)
   = Inr (mounted abc)"
  by (simp add: componentWillReceiveProps_def propsChanged_def searchChanged_def
      fileChanged_def didFilterChange_def exampleProps_def noLevels_def abc_def xyz_def
      logEntry_def)

subsection \<open>A change of the sort\<close>

text \<open>
  C7, as the code has it. When the sort key or the direction differs from the state's,
  \<^verbatim>\<open>onSortChange\<close> runs the whole pipeline on the log file and the view parameters of the
  current properties. It starts from the entries of the log file. It drops the entries
  the level filter does not let pass, unless the filter's keys are all enabled or all
  disabled. If a search text is present and only matches are shown it narrows the list
  with \<^verbatim>\<open>doSearchFilter\<close>. It sorts by message or by level with \<^verbatim>\<open>localeCompare\<close>, and
  leaves the order for any other key. It reverses the list if the direction is
  \<^verbatim>\<open>DESC\<close>. An empty key or direction stands for the state's. The list the state held
  before is not read, and without a log file the new list is empty.
\<close>

theorem sort_change_reruns_pipeline:
  fixes props :: LogTableProps and state :: LogTableState
    and rx :: RegExpConstructor and lc :: LocaleCompare and sb sd :: string
  defines "F \<equiv> levelFilter props"
  defines "sortKey \<equiv> (if sb \<noteq> [] then Some sb else sortBy state)"
  defines "direction \<equiv> (if sd \<noteq> [] then Some sd else sortDirection state)"
  defines "levelled \<equiv>
    (\<lambda>list. if list_all (\<lambda>k. truthyProperty F k) (map fst F)
                \<or> list_all (\<lambda>k. \<not> truthyProperty F k) (map fst F)
             then list
             else filter (\<lambda>a. level a \<noteq> [] \<and> truthyProperty F (level a)) list)"
  defines "searched \<equiv>
    (\<lambda>list. case search props of
               None \<Rightarrow> Inr list
             | Some t \<Rightarrow> if t \<noteq> [] \<and> showOnlySearchResults props
                         then doSearchFilter rx t list else Inr list)"
  defines "ordered \<equiv>
    (\<lambda>list. if sortKey = Some ''message''
             then sortBy_cmp (\<lambda>a b. lc (message a) (message b)) list
             else if sortKey = Some ''level''
             then sortBy_cmp (\<lambda>a b. lc (level a) (level b)) list
             else list)"
  defines "directed \<equiv> (\<lambda>list. if direction = Some ''DESC'' then rev list else list)"
  assumes "sortBy state \<noteq> Some sb \<or> sortDirection state \<noteq> Some sd"
  shows "onSortChange rx lc props state sb sd =
     (case logFile props of
        None \<Rightarrow> Inr (state\<lparr>sortBy := Some sb, sortDirection := Some sd, sortedList := []\<rparr>)
      | Some source \<Rightarrow>
          (case searched (levelled (logEntries source)) of
             Inl e \<Rightarrow> Inl e
           | Inr base \<Rightarrow>
               Inr (state\<lparr>sortBy := Some sb, sortDirection := Some sd,
                          sortedList := directed (ordered base)\<rparr>)))"
proof -
  let ?state = "state\<lparr>sortBy := sortKey, sortDirection := direction\<rparr>"
  have options: "sortFilterList rx lc props state
          (noOptions\<lparr>optSortBy := Some sb, optSortDirection := Some sd\<rparr>)
        = sortFilterList rx lc props ?state noOptions"
    unfolding sortKey_def direction_def
    by (subst sortFilterList_options) (simp add: noOptions_def truthy_def)
  have passes: "doFilter (levelFilter props) =
      (\<lambda>a. level a \<noteq> [] \<and> truthyProperty (levelFilter props) (level a))"
    by (simp add: doFilter_def fun_eq_iff)
  have step1: "filterStep (shouldFilter props None) (levelFilter props) list = levelled list"
    for list
    by (simp add: filterStep_def shouldFilter_def Let_def F_def levelled_def passes)
  have step2: "searchStep rx (search props) (showOnlySearchResults props) list = searched list"
    for list
    by (simp add: searchStep_def searched_def)
  have cmps: "doSortByMessage lc = (\<lambda>a b. lc (message a) (message b))"
    "doSortByLevel lc = (\<lambda>a b. lc (level a) (level b))"
    by (simp_all add: doSortByMessage_def doSortByLevel_def fun_eq_iff)
  have step3: "sortStep lc sortKey list = ordered list" for list
    by (simp add: sortStep_def ordered_def cmps)
  have step4: "reverseStep direction list = directed list" for list
    by (simp add: reverseStep_def directed_def DESC_def)
  show ?thesis
  proof (cases "logFile props")
    case None
    then show ?thesis
      using assms(8) by (auto simp add: onSortChange_def options sortFilterList_noFile)
  next
    case (Some source)
    show ?thesis
    proof -
      have "sortFilterList rx lc props ?state noOptions =
        (if noSort sortKey direction \<and> \<not> shouldFilter props None \<and> \<not> truthy (search props)
         then Inr (SourceArray (logEntries source))
         else
           (case searched (levelled (logEntries source)) of
              Inl e \<Rightarrow> Inl e
            | Inr found \<Rightarrow> Inr (NewArray (directed (ordered found)))))"
        by (cases "searched (levelled (logEntries source))")
          (simp_all add: sortFilterList_noOptions [OF Some] step1 step2 step3 step4)
      moreover have "ordered list = list" and "directed list = list"
        if "noSort sortKey direction" for list
        using that sortStep_noSort [of sortKey direction lc list]
          reverseStep_noSort [of sortKey direction list]
        by (simp_all add: step3 step4)
      moreover have "levelled list = list" if "\<not> shouldFilter props None" for list
        using that step1 [of list] by (simp add: filterStep_def)
      moreover have "searched list = Inr list" if "\<not> truthy (search props)" for list
        using that step2 [of list] searchStep_off [of "search props" _ rx list] by simp
      ultimately show ?thesis
        using Some assms(8)
        by (cases "searched (levelled (logEntries source))")
          (auto simp add: onSortChange_def options)
    qed
  qed
qed

theorem sort_change_reruns_pipeline_witness:
  "onSortChange literalRegExp codeUnitCompare
     (exampleProps mixedLog infoAndError (Some ''x'') True) (mounted abc) ''message'' DESC
   = Inr ((mounted abc)
            \<lparr>sortBy := Some ''message'', sortDirection := Some DESC,
             sortedList := [logEntry 3 ''error'' ''c x'', logEntry 0 ''info'' ''b x'',
                            logEntry 4 ''info'' ''a x'']\<rparr>)"
  using sort_change_reruns_pipeline [where rx = literalRegExp and lc = codeUnitCompare
      and props = "exampleProps mixedLog infoAndError (Some ''x'') True"
      and state = "mounted abc" and sb = "''message''" and sd = DESC]
  by (simp add: search_defs truthyProperty_def sortBy_cmp_def exampleProps_def mounted_def
      initialState_def infoAndError_def mixedLog_def logEntry_def DESC_def ASC_def)

text \<open>
  C7, as the spec has it, fails: the sort is not applied to the sequence computed last.
  After a log file was replaced without being detected, the state still holds the
  entries of the old file; a change of the direction then shows the entries of the new
  file, reversed, and not the reversal of what the state held.
\<close>

theorem sort_change_reads_current_source:
  "componentDidMount literalRegExp codeUnitCompare (exampleProps abc noLevels None False)
     initialState = Inr (mounted abc)
 \<and> componentWillReceiveProps literalRegExp codeUnitCompare didFilterChange
     (exampleProps abc noLevels None False) (mounted abc) (exampleProps xyz noLevels None False)
     = Inr (mounted abc)
 \<and> onSortChange literalRegExp codeUnitCompare (exampleProps xyz noLevels None False)
     (mounted abc) ''index'' DESC
     = Inr ((mounted abc)\<lparr>sortBy := Some ''index'', sortDirection := Some DESC,
                           sortedList := rev xyz\<rparr>)
 \<and> reverseStep (Some DESC) (sortStep codeUnitCompare (Some ''index'') (sortedList (mounted abc)))
     = rev abc
 \<and> rev xyz \<noteq> rev abc"
  by (simp add: componentDidMount_def componentWillReceiveProps_def onSortChange_def
      propsChanged_def searchChanged_def fileChanged_def didFilterChange_def makeSearchList_def
      mounted_def table_defs initialState_def exampleProps_def noLevels_def abc_def xyz_def
      logEntry_def)

end
